theory Spec2Isabelle
  imports Main "HOL-Library.Sublist"
begin

section \<open>Common types\<close>

text \<open>
  Instants are counted in microseconds, the resolution of Python's \<open>datetime\<close>. The ISO-8601
  text that \<open>datetime.isoformat\<close> writes into the files is modelled by the instant it denotes:
  \<open>fromisoformat\<close> is the inverse of \<open>isoformat\<close> on everything \<open>datetime.now()\<close> produces, and
  the program never writes another timestamp. Strings are ASCII strings.
\<close>

type_synonym timestamp = int

definition timedelta_days :: "int \<Rightarrow> int" where
  "timedelta_days d = d * 86400000000"

text \<open>The exceptions the modelled code can raise or catch.\<close>

datatype error =
    TypeError
  | IllTyped
  | PlaywrightTimeout
  | PlaywrightError

definition bind_err :: "error + 'a \<Rightarrow> ('a \<Rightarrow> error + 'b) \<Rightarrow> error + 'b" where
  "bind_err r f = (case r of Inl e \<Rightarrow> Inl e | Inr x \<Rightarrow> f x)"

text \<open>A list comprehension whose element expression may raise: the first exception wins.\<close>

fun map_err :: "('a \<Rightarrow> error + 'b) \<Rightarrow> 'a list \<Rightarrow> error + 'b list" where
  "map_err f [] = Inr []"
| "map_err f (x # xs) =
     (case f x of
        Inl e \<Rightarrow> Inl e
      | Inr y \<Rightarrow> (case map_err f xs of Inl e \<Rightarrow> Inl e | Inr ys \<Rightarrow> Inr (y # ys)))"

section \<open>The job model (src/models/job.py)\<close>

record job =
  title :: string
  company :: string
  location :: string
  classification :: string
  subcategory :: string
  job_url :: string
  posted_date :: "string option"
  salary :: "string option"
  job_type :: "string option"
  description :: "string option"
  scraped_at :: timestamp

text \<open>
  The values a job dictionary holds: \<open>None\<close>, a string, or a string that is a timestamp.
  A dictionary is an association list in key order, as \<open>asdict\<close> builds it and JSON keeps it.
\<close>

datatype pyval = PNone | PStr string | PIso timestamp

type_synonym pydict = "(string \<times> pyval) list"

definition opt_val :: "string option \<Rightarrow> pyval" where
  "opt_val v = (case v of None \<Rightarrow> PNone | Some s \<Rightarrow> PStr s)"

definition to_dict :: "job \<Rightarrow> pydict" where
  "to_dict j =
     [(''title'', PStr (title j)),
      (''company'', PStr (company j)),
      (''location'', PStr (location j)),
      (''classification'', PStr (classification j)),
      (''subcategory'', PStr (subcategory j)),
      (''job_url'', PStr (job_url j)),
      (''posted_date'', opt_val (posted_date j)),
      (''salary'', opt_val (salary j)),
      (''job_type'', opt_val (job_type j)),
      (''description'', opt_val (description j)),
      (''scraped_at'', PIso (scraped_at j))]"

definition job_fields :: "string list" where
  "job_fields =
     [''title'', ''company'', ''location'', ''classification'', ''subcategory'', ''job_url'',
      ''posted_date'', ''salary'', ''job_type'', ''description'', ''scraped_at'']"

text \<open>
  Keyword arguments of the dataclass constructor. A field without a default that the dictionary
  lacks is a \<open>TypeError\<close>; a value that is not of the annotated type would give a Job outside
  the record type, and is reported as \<open>IllTyped\<close>.
\<close>

definition required_str :: "pydict \<Rightarrow> string \<Rightarrow> error + string" where
  "required_str d k =
     (case map_of d k of
        None \<Rightarrow> Inl TypeError
      | Some (PStr s) \<Rightarrow> Inr s
      | Some _ \<Rightarrow> Inl IllTyped)"

definition optional_str :: "pydict \<Rightarrow> string \<Rightarrow> error + string option" where
  "optional_str d k =
     (case map_of d k of
        None \<Rightarrow> Inr None
      | Some PNone \<Rightarrow> Inr None
      | Some (PStr s) \<Rightarrow> Inr (Some s)
      | Some (PIso t) \<Rightarrow> Inl IllTyped)"

text \<open>\<open>__post_init__\<close>: a missing or null \<open>scraped_at\<close> becomes the current instant.\<close>

definition scraped_at_arg :: "pydict \<Rightarrow> timestamp \<Rightarrow> error + timestamp" where
  "scraped_at_arg d now =
     (case map_of d ''scraped_at'' of
        None \<Rightarrow> Inr now
      | Some PNone \<Rightarrow> Inr now
      | Some (PIso t) \<Rightarrow> Inr t
      | Some (PStr s) \<Rightarrow> Inl IllTyped)"

definition from_dict :: "pydict \<Rightarrow> timestamp \<Rightarrow> error + job" where
  "from_dict d now =
     (if list_ex (\<lambda>kv. fst kv \<notin> set job_fields) d then Inl TypeError
      else
        bind_err (required_str d ''title'') (\<lambda>t.
        bind_err (required_str d ''company'') (\<lambda>c.
        bind_err (required_str d ''location'') (\<lambda>l.
        bind_err (required_str d ''classification'') (\<lambda>cl.
        bind_err (required_str d ''subcategory'') (\<lambda>sc.
        bind_err (required_str d ''job_url'') (\<lambda>u.
        bind_err (optional_str d ''posted_date'') (\<lambda>pd.
        bind_err (optional_str d ''salary'') (\<lambda>sa.
        bind_err (optional_str d ''job_type'') (\<lambda>jt.
        bind_err (optional_str d ''description'') (\<lambda>de.
        bind_err (scraped_at_arg d now) (\<lambda>at.
          Inr \<lparr>title = t, company = c, location = l, classification = cl, subcategory = sc,
               job_url = u, posted_date = pd, salary = sa, job_type = jt, description = de,
               scraped_at = at\<rparr>))))))))))))"

section \<open>JSON storage (src/storage/json_storage.py)\<close>

text \<open>
  The two files and the retention setting. A file that does not exist is \<open>None\<close>. The output
  file holds the list of job dictionaries, the seen-jobs file the mapping from job URL to the
  instant it was last marked.
\<close>

record storage =
  output_file :: "pydict list option"
  seen_file :: "(string \<rightharpoonup> timestamp) option"
  retention_days :: int

definition load :: "storage \<Rightarrow> timestamp \<Rightarrow> error + job list" where
  "load st now =
     (case output_file st of
        None \<Rightarrow> Inr []
      | Some jobs_data \<Rightarrow> map_err (\<lambda>data. from_dict data now) jobs_data)"

definition load_seen_jobs :: "storage \<Rightarrow> (string \<rightharpoonup> timestamp)" where
  "load_seen_jobs st = (case seen_file st of None \<Rightarrow> Map.empty | Some m \<Rightarrow> m)"

definition exists :: "storage \<Rightarrow> job \<Rightarrow> bool" where
  "exists st j = (load_seen_jobs st (job_url j) \<noteq> None)"

text \<open>
  \<open>_update_seen_jobs\<close> reads the clock twice: \<open>current_time\<close> stamps the entries,
  \<open>cutoff_now\<close> is the later reading the cutoff is computed from.
\<close>

definition update_seen_jobs :: "storage \<Rightarrow> job list \<Rightarrow> timestamp \<Rightarrow> timestamp \<Rightarrow> storage" where
  "update_seen_jobs st jobs current_time cutoff_now =
     (let seen_jobs = fold (\<lambda>j m. m(job_url j \<mapsto> current_time)) jobs (load_seen_jobs st);
          cutoff_date = cutoff_now - timedelta_days (retention_days st);
          kept = (\<lambda>url. case seen_jobs url of
                           None \<Rightarrow> None
                         | Some ts \<Rightarrow> if ts > cutoff_date then Some ts else None)
      in st\<lparr>seen_file := Some kept\<rparr>)"

text \<open>
  \<open>save\<close> merges: it loads the existing jobs (clock reading \<open>load_now\<close>), appends the given
  ones, writes all of them, and marks the given ones as seen.
\<close>

definition save :: "storage \<Rightarrow> job list \<Rightarrow> timestamp \<Rightarrow> timestamp \<Rightarrow> timestamp \<Rightarrow> error + storage" where
  "save st jobs load_now current_time cutoff_now =
     (case load st load_now of
        Inl e \<Rightarrow> Inl e
      | Inr existing_jobs \<Rightarrow>
          (let all_jobs = existing_jobs @ jobs;
               jobs_data = map to_dict all_jobs
           in Inr (update_seen_jobs (st\<lparr>output_file := Some jobs_data\<rparr>) jobs current_time cutoff_now)))"

text \<open>
  \<open>cleanup_old_jobs\<close> returns the store and the number it reports as removed. The clock is read
  when loading (\<open>load_now\<close>), for the cutoff (\<open>now\<close>), and three times more inside \<open>save\<close>.
\<close>

definition cleanup_old_jobs ::
  "storage \<Rightarrow> timestamp \<Rightarrow> timestamp \<Rightarrow> timestamp \<Rightarrow> timestamp \<Rightarrow> timestamp \<Rightarrow> error + (storage \<times> nat)" where
  "cleanup_old_jobs st load_now now save_load_now current_time cutoff_now =
     (case load st load_now of
        Inl e \<Rightarrow> Inl e
      | Inr jobs \<Rightarrow>
          if jobs = [] then Inr (st, 0)
          else
            (let cutoff_date = now - timedelta_days (retention_days st);
                 original_count = length jobs;
                 recent_jobs = filter (\<lambda>j. scraped_at j > cutoff_date) jobs;
                 removed_count = original_count - length recent_jobs
             in if removed_count > 0
                then (case save st recent_jobs save_load_now current_time cutoff_now of
                        Inl e \<Rightarrow> Inl e
                      | Inr st' \<Rightarrow> Inr (st', removed_count))
                else Inr (st, removed_count)))"

section \<open>Strings\<close>

text \<open>\<open>str.lower\<close>, \<open>str.strip\<close> and the substring test \<open>in\<close>, on ASCII strings.\<close>

definition lower_char :: "char \<Rightarrow> char" where
  "lower_char c =
     (case map_of (zip ''ABCDEFGHIJKLMNOPQRSTUVWXYZ'' ''abcdefghijklmnopqrstuvwxyz'') c of
        Some l \<Rightarrow> l
      | None \<Rightarrow> c)"

definition lower :: "string \<Rightarrow> string" where
  "lower s = map lower_char s"

definition is_space :: "char \<Rightarrow> bool" where
  "is_space c =
     (c \<in> set [CHR 0x09, CHR 0x0A, CHR 0x0B, CHR 0x0C, CHR 0x0D,
               CHR 0x1C, CHR 0x1D, CHR 0x1E, CHR 0x1F, CHR '' ''])"

definition strip :: "string \<Rightarrow> string" where
  "strip s = rev (dropWhile is_space (rev (dropWhile is_space s)))"

fun str_in :: "string \<Rightarrow> string \<Rightarrow> bool" where
  "str_in needle [] = (needle = [])"
| "str_in needle (c # cs) = (prefix needle (c # cs) \<or> str_in needle cs)"

section \<open>The scraper (src/scraper/seek_scraper.py)\<close>

text \<open>
  The browser is the Playwright library, not code of this repository; it is a parameter. An
  element handle answers \<open>inner_text()\<close> and \<open>get_attribute(name)\<close>, a job card answers
  \<open>query_selector(selector)\<close>; each call may raise.
\<close>

type_synonym selector = string

record element =
  inner_text :: "error + string"
  get_attribute :: "string \<Rightarrow> error + string option"

type_synonym card = "selector \<Rightarrow> error + element option"

text \<open>The fields of the scraper object that the modelled methods read.\<close>

record seek_scraper =
  base_url :: string
  cfg_classification :: string
  excluded_subcategories :: "string list"
  excluded_companies :: "string list"
  max_pages :: int

subsection \<open>Inclusion filter\<close>

text \<open>
  \<open>_should_include_job\<close> returns at the first check that matches and logs which one it was;
  the verdict records that log line. The excluded sets are given in their iteration order.
\<close>

datatype verdict =
    Included
  | ExcludedBySubcategory string
  | ExcludedByKeyword
  | ExcludedByCompany string

definition should_include_verdict :: "seek_scraper \<Rightarrow> job \<Rightarrow> verdict" where
  "should_include_verdict sc j =
     (case find (\<lambda>excluded. str_in (lower excluded) (lower (subcategory j)))
             (excluded_subcategories sc) of
        Some excluded \<Rightarrow> ExcludedBySubcategory excluded
      | None \<Rightarrow>
          (let company_lower = lower (company j)
           in if str_in ''recruitment'' company_lower \<and> str_in ''agency'' company_lower
              then ExcludedByKeyword
              else (case find (\<lambda>excluded_company.
                                 str_in (lower excluded_company) (lower (company j)))
                           (excluded_companies sc) of
                      Some excluded_company \<Rightarrow> ExcludedByCompany excluded_company
                    | None \<Rightarrow> Included)))"

definition should_include_job :: "seek_scraper \<Rightarrow> job \<Rightarrow> bool" where
  "should_include_job sc j = (should_include_verdict sc j = Included)"

subsection \<open>Field extraction\<close>

definition title_selectors :: "selector list" where
  \<open>title_selectors =
     [''a[data-job-id]'', ''a[data-automation="jobTitle"]'', ''a[href*="/job/"]'',
      ''h3 a'', ''article a'']\<close>

definition company_selectors :: "selector list" where
  \<open>company_selectors =
     [''[data-automation="jobCompany"]'', ''[data-automation="advertiser-name"]'',
      ''span[data-automation*="company"]'', ''span[data-automation*="advertiser"]'']\<close>

definition location_selectors :: "selector list" where
  \<open>location_selectors =
     [''[data-automation="jobLocation"]'', ''[data-automation="job-location"]'',
      ''span[data-automation*="location"]'']\<close>

definition salary_selectors :: "selector list" where
  \<open>salary_selectors =
     [''[data-automation="jobSalary"]'', ''[data-automation="job-salary"]'',
      ''span[data-automation*="salary"]'']\<close>

definition subcategory_selectors :: "selector list" where
  \<open>subcategory_selectors =
     [''[data-automation="jobClassification"]'', ''[data-automation="job-classification"]'',
      ''span[data-automation*="classification"]'']\<close>

definition posted_selectors :: "selector list" where
  \<open>posted_selectors =
     [''[data-automation="jobListingDate"]'', ''[data-automation="job-listing-date"]'',
      ''span[data-automation*="date"]'', ''time'']\<close>

definition description_selectors :: "selector list" where
  \<open>description_selectors =
     [''[data-automation="jobShortDescription"]'', ''[data-automation="job-short-description"]'',
      ''p[data-automation*="description"]'', ''div[data-automation*="snippet"]'']\<close>

text \<open>
  The chain \<open>card.query_selector(s1) or card.query_selector(s2) or ...\<close>: the queries run in
  order until one returns an element; a query that raises ends the chain with its exception.
\<close>

fun first_match :: "card \<Rightarrow> selector list \<Rightarrow> error + element option" where
  "first_match job_card [] = Inr None"
| "first_match job_card (s # ss) =
     (case job_card s of
        Inl e \<Rightarrow> Inl e
      | Inr (Some el) \<Rightarrow> Inr (Some el)
      | Inr None \<Rightarrow> first_match job_card ss)"

text \<open>\<open>elem.inner_text().strip() if elem else default\<close>\<close>

definition text_or :: "element option \<Rightarrow> 'a \<Rightarrow> (string \<Rightarrow> 'a) \<Rightarrow> error + 'a" where
  "text_or elem fallback wrap =
     (case elem of
        None \<Rightarrow> Inr fallback
      | Some el \<Rightarrow> bind_err (inner_text el) (\<lambda>t. Inr (wrap (strip t))))"

text \<open>
  The body of the \<open>try\<close> block of \<open>_extract_job_data\<close>. \<open>urljoin\<close> is the standard library's,
  a parameter; \<open>now\<close> is the clock reading that \<open>Job.__post_init__\<close> stores in \<open>scraped_at\<close>.
\<close>

definition extract_body ::
  "seek_scraper \<Rightarrow> (string \<Rightarrow> string \<Rightarrow> string) \<Rightarrow> timestamp \<Rightarrow> card \<Rightarrow> error + job option" where
  "extract_body sc urljoin now job_card =
     bind_err (first_match job_card title_selectors) (\<lambda>title_elem.
       case title_elem of
         None \<Rightarrow> Inr None
       | Some te \<Rightarrow>
           bind_err (inner_text te) (\<lambda>title_text.
           bind_err (get_attribute te ''href'') (\<lambda>href.
             case href of
               None \<Rightarrow> Inr None
             | Some h \<Rightarrow>
                 if h = [] then Inr None
                 else
                   bind_err (first_match job_card company_selectors) (\<lambda>company_elem.
                   bind_err (text_or company_elem ''Unknown'' id) (\<lambda>company_v.
                   bind_err (first_match job_card location_selectors) (\<lambda>location_elem.
                   bind_err (text_or location_elem ''Unknown'' id) (\<lambda>location_v.
                   bind_err (first_match job_card salary_selectors) (\<lambda>salary_elem.
                   bind_err (text_or salary_elem None Some) (\<lambda>salary_v.
                   bind_err (first_match job_card subcategory_selectors) (\<lambda>subcategory_elem.
                   bind_err (text_or subcategory_elem ''Unknown'' id) (\<lambda>subcategory_v.
                   bind_err (first_match job_card posted_selectors) (\<lambda>posted_elem.
                   bind_err (text_or posted_elem (Some ''Recently'') Some) (\<lambda>posted_v.
                   bind_err (first_match job_card description_selectors) (\<lambda>description_elem.
                   bind_err (text_or description_elem None Some) (\<lambda>description_v.
                     Inr (Some \<lparr>title = strip title_text, company = company_v,
                                location = location_v,
                                classification = cfg_classification sc,
                                subcategory = subcategory_v,
                                job_url = urljoin (base_url sc) h,
                                posted_date = posted_v, salary = salary_v, job_type = None,
                                description = description_v,
                                scraped_at = now\<rparr>))))))))))))))))"

text \<open>\<open>_extract_job_data\<close>: any exception of the body is caught and gives \<open>None\<close>.\<close>

definition extract_job_data ::
  "seek_scraper \<Rightarrow> (string \<Rightarrow> string \<Rightarrow> string) \<Rightarrow> timestamp \<Rightarrow> card \<Rightarrow> job option" where
  "extract_job_data sc urljoin now job_card =
     (case extract_body sc urljoin now job_card of
        Inl e \<Rightarrow> None
      | Inr r \<Rightarrow> r)"

subsection \<open>One page\<close>

text \<open>
  The loop over the job cards of \<open>_scrape_page\<close>. Each card comes with the clock reading at
  which it is processed. Nothing the loop body calls can raise past \<open>_extract_job_data\<close>, so
  the loop's own \<open>except\<close> clause has no branch here.
\<close>

fun scrape_cards ::
  "seek_scraper \<Rightarrow> (string \<Rightarrow> string \<Rightarrow> string) \<Rightarrow> (timestamp \<times> card) list \<Rightarrow> job list" where
  "scrape_cards sc urljoin [] = []"
| "scrape_cards sc urljoin ((now, job_card) # cards) =
     (case extract_job_data sc urljoin now job_card of
        Some j \<Rightarrow>
          if should_include_job sc j then j # scrape_cards sc urljoin cards
          else scrape_cards sc urljoin cards
      | None \<Rightarrow> scrape_cards sc urljoin cards)"

text \<open>
  The page of the browser, over the browser's states \<open>'s\<close>. A next-page control answers
  \<open>is_visible()\<close> and \<open>click()\<close>, which gives the browser's state after the click. \<open>clock s n\<close>
  is the clock reading while card \<open>n\<close> of the page shown in state \<open>s\<close> is processed.
\<close>

record 's next_button =
  is_visible :: "error + bool"
  click :: "error + 's"

record 's page =
  wait_for_selector :: "'s \<Rightarrow> error + unit"
  query_selector_all :: "'s \<Rightarrow> error + card list"
  query_selector :: "'s \<Rightarrow> selector \<Rightarrow> error + 's next_button option"
  wait_for_load_state :: "'s \<Rightarrow> error + 's"
  clock :: "'s \<Rightarrow> nat \<Rightarrow> timestamp"

text \<open>
  \<open>_scrape_page\<close>: a timeout of the wait is caught and gives no jobs; any other exception of
  the wait, and one of \<open>query_selector_all\<close>, propagates.
\<close>

definition scrape_page ::
  "seek_scraper \<Rightarrow> (string \<Rightarrow> string \<Rightarrow> string) \<Rightarrow> 's page \<Rightarrow> 's \<Rightarrow> error + job list" where
  "scrape_page sc urljoin p s =
     (case wait_for_selector p s of
        Inl PlaywrightTimeout \<Rightarrow> Inr []
      | Inl e \<Rightarrow> Inl e
      | Inr u \<Rightarrow>
          (case query_selector_all p s of
             Inl e \<Rightarrow> Inl e
           | Inr job_cards \<Rightarrow>
               Inr (scrape_cards sc urljoin
                      (zip (map (clock p s) [0..<length job_cards]) job_cards))))"

subsection \<open>Pagination\<close>

definition next_selectors :: "selector list" where
  \<open>next_selectors =
     [''a[data-automation="page-next"]'', ''a[aria-label="Next"]'',
      ''nav[data-automation="pagination"] a:has-text("Next")'', ''button:has-text("Next")'',
      ''a.next'', ''[rel="next"]'']\<close>

text \<open>
  The loop over the selectors in \<open>_goto_next_page\<close>: \<open>Some s'\<close> is \<open>return True\<close> with the
  browser in state \<open>s'\<close>, \<open>None\<close> is \<open>return False\<close>.
\<close>

fun try_next_selectors :: "'s page \<Rightarrow> 's \<Rightarrow> selector list \<Rightarrow> error + 's option" where
  "try_next_selectors p s [] = Inr None"
| "try_next_selectors p s (sel # sels) =
     (case query_selector p s sel of
        Inl e \<Rightarrow> Inl e
      | Inr None \<Rightarrow> try_next_selectors p s sels
      | Inr (Some next_button) \<Rightarrow>
          (case is_visible next_button of
             Inl e \<Rightarrow> Inl e
           | Inr False \<Rightarrow> try_next_selectors p s sels
           | Inr True \<Rightarrow>
               (case click next_button of
                  Inl e \<Rightarrow> Inl e
                | Inr s' \<Rightarrow>
                    (case wait_for_load_state p s' of
                       Inl e \<Rightarrow> Inl e
                     | Inr s'' \<Rightarrow> Inr (Some s'')))))"

text \<open>\<open>_goto_next_page\<close>: any exception is caught and gives \<open>False\<close>.\<close>

definition goto_next_page :: "'s page \<Rightarrow> 's \<Rightarrow> 's option" where
  "goto_next_page p s =
     (case try_next_selectors p s next_selectors of
        Inl e \<Rightarrow> None
      | Inr r \<Rightarrow> r)"

text \<open>
  The \<open>while\<close> loop of \<open>scrape\<close>. Its state is the page number, the browser's state and the
  jobs gathered so far; \<open>pages\<close> gathers the numbers of the pages it has logged
  "Scraping page n..." for, in order. An exception of \<open>_scrape_page\<close> leaves the loop and
  \<open>scrape\<close>.
\<close>

function scrape_loop ::
  "seek_scraper \<Rightarrow> (string \<Rightarrow> string \<Rightarrow> string) \<Rightarrow> 's page \<Rightarrow> int \<Rightarrow> 's \<Rightarrow> job list \<Rightarrow> int list
     \<Rightarrow> int list \<times> (error + job list)" where
  "scrape_loop sc urljoin p page_num s jobs pages =
     (if page_num \<le> max_pages sc then
        (case scrape_page sc urljoin p s of
           Inl e \<Rightarrow> (pages @ [page_num], Inl e)
         | Inr page_jobs \<Rightarrow>
             (case goto_next_page p s of
                None \<Rightarrow> (pages @ [page_num], Inr (jobs @ page_jobs))
              | Some s' \<Rightarrow>
                  scrape_loop sc urljoin p (page_num + 1) s' (jobs @ page_jobs)
                    (pages @ [page_num])))
      else (pages, Inr jobs))"
  by pat_completeness auto
termination
  by (relation "measure (\<lambda>(sc, urljoin, p, page_num, s, jobs, pages).
        nat (max_pages sc + 1 - page_num))") auto

text \<open>
  \<open>scrape\<close>, from the first page on: \<open>s\<close> is the browser's state once the search URL has
  been opened.
\<close>

definition scrape ::
  "seek_scraper \<Rightarrow> (string \<Rightarrow> string \<Rightarrow> string) \<Rightarrow> 's page \<Rightarrow> 's \<Rightarrow> int list \<times> (error + job list)" where
  "scrape sc urljoin p s = scrape_loop sc urljoin p 1 s [] []"

section \<open>The orchestrator's counters\<close>



section \<open>What the specification says of the stores\<close>

text \<open>
  The specification's \<open>isSeen\<close>: a SeenEntry for the identity exists and its timestamp is newer
  than \<open>now\<close> minus the retention window.
\<close>

definition spec_is_seen :: "storage \<Rightarrow> timestamp \<Rightarrow> string \<Rightarrow> bool" where
  "spec_is_seen st now url =
     (case load_seen_jobs st url of
        None \<Rightarrow> False
      | Some ts \<Rightarrow> ts > now - timedelta_days (retention_days st))"

text \<open>A job with the given URL and capture instant, for the concrete runs below.\<close>

abbreviation example_job :: "string \<Rightarrow> timestamp \<Rightarrow> job" where
  "example_job url at \<equiv>
     \<lparr>title = ''HR Advisor'', company = ''Acme'', location = ''Sydney'',
      classification = ''Human Resources & Recruitment'', subcategory = ''Consulting'',
      job_url = url, posted_date = Some ''2d ago'', salary = None, job_type = None,
      description = None, scraped_at = at\<rparr>"

text \<open>
  The specification's pagination words. A page "exposes a visible next-page control" when one
  of the selectors of \<open>_goto_next_page\<close> finds a control that answers \<open>is_visible()\<close> with
  true; navigation "raises" when one of the calls made for some selector raises; a page
  "raises" when \<open>_scrape_page\<close> lets an exception through.
\<close>

definition visible_control :: "'s page \<Rightarrow> 's \<Rightarrow> selector \<Rightarrow> bool" where
  "visible_control p s sel =
     (case query_selector p s sel of
        Inr (Some b) \<Rightarrow> is_visible b = Inr True
      | _ \<Rightarrow> False)"

definition exposes_visible_next :: "'s page \<Rightarrow> 's \<Rightarrow> bool" where
  "exposes_visible_next p s = list_ex (visible_control p s) next_selectors"

definition selector_raises :: "'s page \<Rightarrow> 's \<Rightarrow> selector \<Rightarrow> bool" where
  "selector_raises p s sel =
     (case query_selector p s sel of
        Inl e \<Rightarrow> True
      | Inr None \<Rightarrow> False
      | Inr (Some b) \<Rightarrow>
          (case is_visible b of
             Inl e \<Rightarrow> True
           | Inr False \<Rightarrow> False
           | Inr True \<Rightarrow>
               (case click b of
                  Inl e \<Rightarrow> True
                | Inr s' \<Rightarrow>
                    (case wait_for_load_state p s' of
                       Inl e \<Rightarrow> True
                     | Inr s'' \<Rightarrow> False))))"

definition navigation_raises :: "'s page \<Rightarrow> 's \<Rightarrow> bool" where
  "navigation_raises p s = list_ex (selector_raises p s) next_selectors"

definition page_raises :: "'s page \<Rightarrow> 's \<Rightarrow> bool" where
  "page_raises p s =
     (case wait_for_selector p s of
        Inl PlaywrightTimeout \<Rightarrow> False
      | Inl e \<Rightarrow> True
      | Inr u \<Rightarrow> (case query_selector_all p s of Inl e \<Rightarrow> True | Inr cs \<Rightarrow> False))"

text \<open>
  The specification's extraction words. The candidate records of a page are what
  \<open>_extract_job_data\<close> returns for its cards, before the inclusion filter. A lookup strategy
  "yields a non-empty result" when its query returns an element; the first such strategy of an
  ordered list decides the field, whose value is the element's stripped text, and the fallback
  when there is none.
\<close>

definition candidate_records ::
  "seek_scraper \<Rightarrow> (string \<Rightarrow> string \<Rightarrow> string) \<Rightarrow> (timestamp \<times> card) list \<Rightarrow> job list" where
  "candidate_records sc urljoin cards =
     List.map_filter (\<lambda>(now, job_card). extract_job_data sc urljoin now job_card) cards"




text \<open>A scraper, a browser and job cards for the concrete runs below.\<close>

abbreviation example_scraper :: "int \<Rightarrow> seek_scraper" where
  "example_scraper n \<equiv>
     \<lparr>base_url = ''https://www.seek.com.au'',
      cfg_classification = ''Human Resources & Recruitment'',
      excluded_subcategories = [''Recruitment - Agency''],
      excluded_companies = [''Hays''], max_pages = n\<rparr>"

abbreviation example_page :: "(nat \<Rightarrow> error + unit) \<Rightarrow> bool \<Rightarrow> nat page" where
  "example_page wait visible \<equiv>
     \<lparr>wait_for_selector = wait,
      query_selector_all = (\<lambda>s. Inr []),
      query_selector = (\<lambda>s sel. Inr (Some \<lparr>is_visible = Inr visible, click = Inr (Suc s)\<rparr>)),
      wait_for_load_state = (\<lambda>s. Inr s),
      clock = (\<lambda>s n. 0)\<rparr>"

abbreviation example_element :: "string \<Rightarrow> string option \<Rightarrow> element" where
  "example_element t h \<equiv>
     \<lparr>inner_text = Inr t, get_attribute = (\<lambda>a. if a = ''href'' then Inr h else Inr None)\<rparr>"

abbreviation example_card :: "string \<Rightarrow> string \<Rightarrow> card" where
  \<open>example_card t h \<equiv>
     (\<lambda>sel. if sel = ''a[data-automation="jobTitle"]'' then Inr (Some (example_element t (Some h)))
            else if sel = ''[data-automation="advertiser-name"]''
              then Inr (Some (example_element '' Acme Pty Ltd '' None))
            else Inr None)\<close>

abbreviation untitled_card :: card where
  \<open>untitled_card \<equiv>
     (\<lambda>sel. if sel = ''[data-automation="advertiser-name"]''
              then Inr (Some (example_element '' Acme Pty Ltd '' None))
            else Inr None)\<close>

declare scrape_loop.simps [simp del]

section \<open>Serialization round trip\<close>

lemma from_dict_to_dict: "from_dict (to_dict j) now = Inr j"
  by (simp add: from_dict_def to_dict_def job_fields_def required_str_def optional_str_def
      scraped_at_arg_def bind_err_def opt_val_def split: option.split)

lemma map_err_from_dict_to_dict:
  "map_err (\<lambda>data. from_dict data now) (map to_dict js) = Inr js"
  by (induction js) (simp_all add: from_dict_to_dict)

lemma output_file_update_seen_jobs:
  "output_file (update_seen_jobs st jobs t c) = output_file st"
  by (simp add: update_seen_jobs_def Let_def)

lemma load_after_save:
  assumes "load st t0 = Inr existing"
  shows "\<exists>st'. save st jobs t0 t1 t2 = Inr st' \<and> load st' t3 = Inr (existing @ jobs)"
proof -
  let ?st' = "update_seen_jobs (st\<lparr>output_file := Some (map to_dict (existing @ jobs))\<rparr>) jobs t1 t2"
  have "save st jobs t0 t1 t2 = Inr ?st'"
    using assms by (simp add: save_def Let_def)
  moreover have "load ?st' t3 = Inr (existing @ jobs)"
    unfolding load_def output_file_update_seen_jobs
    using map_err_from_dict_to_dict [of t3 "existing @ jobs"] by simp
  ultimately show ?thesis by blast
qed

text \<open>
  C10. Converting a job to its dictionary and back gives the same job, field for field (a
  record is equal to another exactly when all eleven fields are), whatever the clock reads; and
  whenever the existing file loads, saving jobs succeeds and loading afterwards returns the
  existing jobs followed by the saved ones, unchanged.
\<close>

theorem job_roundtrip:
  "from_dict (to_dict j) now = Inr j \<and>
   (load st t0 = Inr existing \<longrightarrow>
      (\<exists>st'. save st jobs t0 t1 t2 = Inr st' \<and> load st' t3 = Inr (existing @ jobs)))"
  using from_dict_to_dict load_after_save by blast

theorem job_roundtrip_witness:
  "from_dict (to_dict (example_job ''https://www.seek.com.au/job/1'' 5)) 9
     = Inr (example_job ''https://www.seek.com.au/job/1'' 5) \<and>
   load \<lparr>output_file = None, seen_file = None, retention_days = 30\<rparr> 1 = Inr [] \<and>
   (\<exists>st'. save \<lparr>output_file = None, seen_file = None, retention_days = 30\<rparr>
              [example_job ''https://www.seek.com.au/job/1'' 5] 1 2 3 = Inr st' \<and>
          load st' 4 = Inr ([] @ [example_job ''https://www.seek.com.au/job/1'' 5]))"
proof -
  have h: "load \<lparr>output_file = None, seen_file = None, retention_days = 30\<rparr> 1 = Inr []"
    by (simp add: load_def)
  show ?thesis
    using h job_roundtrip [of "example_job ''https://www.seek.com.au/job/1'' 5" 9
        "\<lparr>output_file = None, seen_file = None, retention_days = 30\<rparr>" 1 "[]"
        "[example_job ''https://www.seek.com.au/job/1'' 5]" 2 3 4]
    by blast
qed

section \<open>The seen-jobs mapping\<close>

lemma fold_mark_lookup:
  "fold (\<lambda>j m. m(job_url j \<mapsto> t)) jobs m u
     = (if u \<in> job_url ` set jobs then Some t else m u)"
  by (induction jobs arbitrary: m) auto

lemma load_seen_jobs_update:
  "load_seen_jobs (update_seen_jobs st jobs t c) u =
     (if u \<in> job_url ` set jobs
      then (if t > c - timedelta_days (retention_days st) then Some t else None)
      else (case load_seen_jobs st u of
              None \<Rightarrow> None
            | Some ts \<Rightarrow> if ts > c - timedelta_days (retention_days st) then Some ts else None))"
  by (simp add: update_seen_jobs_def Let_def load_seen_jobs_def fold_mark_lookup)

lemma retention_days_update_seen_jobs:
  "retention_days (update_seen_jobs st jobs t c) = retention_days st"
  by (simp add: update_seen_jobs_def Let_def)

lemma load_seen_jobs_update_twice:
  "load_seen_jobs (update_seen_jobs (update_seen_jobs st jobs t c) jobs t c)
     = load_seen_jobs (update_seen_jobs st jobs t c)"
  by (rule ext)
    (simp add: load_seen_jobs_update retention_days_update_seen_jobs split: option.split)

text \<open>
  C1, as the code has it. \<open>exists\<close> reads no clock: it is true exactly when the URL is a key
  of the seen-jobs mapping as last written, whatever the entry's timestamp. The retention window
  is applied by \<open>_update_seen_jobs\<close> only: right after a call of it, the check holds for a
  marked URL when the stamp is after the cutoff, and for any other URL exactly when its entry
  was within the window as of that call's cutoff reading.
\<close>

theorem exists_is_key_membership:
  "(exists st j \<longleftrightarrow> job_url j \<in> dom (load_seen_jobs st)) \<and>
   (exists (update_seen_jobs st jobs t c) j \<longleftrightarrow>
      (if job_url j \<in> job_url ` set jobs
       then t > c - timedelta_days (retention_days st)
       else spec_is_seen st c (job_url j)))"
  by (auto simp: exists_def load_seen_jobs_update spec_is_seen_def split: option.splits)

text \<open>
  The claim as stated fails: an entry stamped at instant 0 is still reported as seen 31 days
  later, with a retention of 30 days, although it is outside the window.
\<close>

theorem exists_ignores_retention_counterexample:
  "exists \<lparr>output_file = None, seen_file = Some [''U1'' \<mapsto> 0], retention_days = 30\<rparr>
       (example_job ''U1'' 0) = True \<and>
   spec_is_seen \<lparr>output_file = None, seen_file = Some [''U1'' \<mapsto> 0], retention_days = 30\<rparr>
       (timedelta_days 31) ''U1'' = False"
  by (simp add: exists_def spec_is_seen_def load_seen_jobs_def timedelta_days_def)

text \<open>
  C7. Marking the same jobs a second time, with the same clock readings, changes nothing: the
  store after two calls is the store after one, so the seen-jobs mapping has the same keys.
\<close>

theorem update_seen_jobs_idempotent:
  "update_seen_jobs (update_seen_jobs st jobs t c) jobs t c = update_seen_jobs st jobs t c \<and>
   dom (load_seen_jobs (update_seen_jobs (update_seen_jobs st jobs t c) jobs t c))
     = dom (load_seen_jobs (update_seen_jobs st jobs t c))"
proof -
  have "load_seen_jobs (update_seen_jobs (update_seen_jobs st jobs t c) jobs t c)
     = load_seen_jobs (update_seen_jobs st jobs t c)" (is "?l = ?r")
    by (rule load_seen_jobs_update_twice)
  moreover have "update_seen_jobs st' jobs t c = st'\<lparr>seen_file := Some (load_seen_jobs (update_seen_jobs st' jobs t c))\<rparr>"
    for st'
    by (simp add: update_seen_jobs_def Let_def load_seen_jobs_def)
  ultimately show ?thesis
    by (metis (no_types, lifting) storage.update_convs(2) storage.surjective
        output_file_update_seen_jobs retention_days_update_seen_jobs)
qed

section \<open>Pruning the record store\<close>

text \<open>
  When some job is older than the cutoff, \<open>cleanup_old_jobs\<close> hands the recent jobs to
  \<open>save\<close>, which appends them to what the file already holds: the file ends with all its
  former jobs followed by a second copy of the recent ones.
\<close>

lemma cleanup_old_jobs_appends:
  assumes "load st t0 = Inr jobs" and "load st t2 = Inr jobs'"
    and "filter (\<lambda>j. scraped_at j > t1 - timedelta_days (retention_days st)) jobs \<noteq> jobs"
  shows "\<exists>st'. cleanup_old_jobs st t0 t1 t2 t3 t4 =
            Inr (st', length jobs - length (filter (\<lambda>j. scraped_at j > t1 - timedelta_days (retention_days st)) jobs))
          \<and> output_file st' = Some (map to_dict (jobs' @ filter (\<lambda>j. scraped_at j > t1 - timedelta_days (retention_days st)) jobs))"
proof -
  let ?recent = "filter (\<lambda>j. scraped_at j > t1 - timedelta_days (retention_days st)) jobs"
  have ne: "jobs \<noteq> []" using assms(3) by auto
  have "length ?recent \<noteq> length jobs"
    using assms(3) by (metis filter_True length_filter_less less_irrefl_nat)
  moreover have "length ?recent \<le> length jobs" by simp
  ultimately have pos: "length jobs - length ?recent > 0" by linarith
  show ?thesis
    using assms(1,2) ne pos
    by (simp add: cleanup_old_jobs_def save_def Let_def output_file_update_seen_jobs)
qed

text \<open>
  C2. The claim asks that the file afterwards hold exactly the jobs captured after the cutoff.
  On a file with one job captured at instant 0 and one captured on day 40, cleaned on day 45
  with a retention of 30 days, the code reports one job removed, and the file then holds the
  old job still, and the recent job twice.
\<close>

theorem cleanup_old_jobs_keeps_old_records:
  "cleanup_old_jobs
     \<lparr>output_file = Some [to_dict (example_job ''U_old'' 0),
                          to_dict (example_job ''U_new'' (timedelta_days 40))],
      seen_file = None, retention_days = 30\<rparr>
     (timedelta_days 45) (timedelta_days 45) (timedelta_days 45) (timedelta_days 45)
     (timedelta_days 45)
   = Inr (\<lparr>output_file = Some [to_dict (example_job ''U_old'' 0),
                                to_dict (example_job ''U_new'' (timedelta_days 40)),
                                to_dict (example_job ''U_new'' (timedelta_days 40))],
            seen_file = Some [''U_new'' \<mapsto> timedelta_days 45], retention_days = 30\<rparr>, 1)"
  apply (simp add: cleanup_old_jobs_def load_def from_dict_to_dict save_def Let_def
      timedelta_days_def update_seen_jobs_def load_seen_jobs_def)
  apply (rule ext)
  apply simp
  done

section \<open>Counters of a run\<close>




section \<open>The inclusion filter\<close>

lemma str_in_sublist: "str_in n h \<longleftrightarrow> sublist n h"
  by (induction h) (auto simp: sublist_Cons_right)

lemma find_Some_holds: "find P xs = Some x \<Longrightarrow> x \<in> set xs \<and> P x"
  by (induction xs) (auto split: if_splits)

lemma find_None_none: "find P xs = None \<Longrightarrow> x \<in> set xs \<Longrightarrow> \<not> P x"
  by (simp add: find_None_iff)

text \<open>
  C3. \<open>_should_include_job\<close> is true exactly when none of three checks matches: (a) the
  lower-cased sub-category contains the lower-cased text of some excluded sub-category, (b)
  the lower-cased company contains "recruitment" and contains "agency", (c) the lower-cased
  company contains the lower-cased text of some excluded company. The checks are made in this
  order and the first that matches decides: the verdict names (a) exactly when (a) matches,
  (b) exactly when (a) does not and (b) does, (c) exactly when only (c) does. The company
  "Acme Recruitment Agency Pty Ltd" is always rejected, and by (b) when both exclusion lists are
  empty; "Acme Recruiting" is never rejected by (b), and is included when both lists are empty.
\<close>

theorem should_include_job_checks:
  "(should_include_job sc j \<longleftrightarrow>
      \<not> (\<exists>e\<in>set (excluded_subcategories sc). sublist (lower e) (lower (subcategory j))) \<and>
      \<not> (sublist ''recruitment'' (lower (company j)) \<and> sublist ''agency'' (lower (company j))) \<and>
      \<not> (\<exists>e\<in>set (excluded_companies sc). sublist (lower e) (lower (company j)))) \<and>
   ((\<exists>e. should_include_verdict sc j = ExcludedBySubcategory e) \<longleftrightarrow>
      (\<exists>e\<in>set (excluded_subcategories sc). sublist (lower e) (lower (subcategory j)))) \<and>
   (should_include_verdict sc j = ExcludedByKeyword \<longleftrightarrow>
      \<not> (\<exists>e\<in>set (excluded_subcategories sc). sublist (lower e) (lower (subcategory j))) \<and>
      sublist ''recruitment'' (lower (company j)) \<and> sublist ''agency'' (lower (company j))) \<and>
   ((\<exists>e. should_include_verdict sc j = ExcludedByCompany e) \<longleftrightarrow>
      \<not> (\<exists>e\<in>set (excluded_subcategories sc). sublist (lower e) (lower (subcategory j))) \<and>
      \<not> (sublist ''recruitment'' (lower (company j)) \<and> sublist ''agency'' (lower (company j))) \<and>
      (\<exists>e\<in>set (excluded_companies sc). sublist (lower e) (lower (company j)))) \<and>
   \<not> should_include_job sc (j\<lparr>company := ''Acme Recruitment Agency Pty Ltd''\<rparr>) \<and>
   should_include_verdict (sc\<lparr>excluded_subcategories := [], excluded_companies := []\<rparr>)
       (j\<lparr>company := ''Acme Recruitment Agency Pty Ltd''\<rparr>) = ExcludedByKeyword \<and>
   should_include_verdict sc (j\<lparr>company := ''Acme Recruiting''\<rparr>) \<noteq> ExcludedByKeyword \<and>
   should_include_verdict (sc\<lparr>excluded_subcategories := [], excluded_companies := []\<rparr>)
       (j\<lparr>company := ''Acme Recruiting''\<rparr>) = Included"
proof -
  have general: "(should_include_job sc j \<longleftrightarrow>
      \<not> (\<exists>e\<in>set (excluded_subcategories sc). sublist (lower e) (lower (subcategory j))) \<and>
      \<not> (sublist ''recruitment'' (lower (company j)) \<and> sublist ''agency'' (lower (company j))) \<and>
      \<not> (\<exists>e\<in>set (excluded_companies sc). sublist (lower e) (lower (company j)))) \<and>
   ((\<exists>e. should_include_verdict sc j = ExcludedBySubcategory e) \<longleftrightarrow>
      (\<exists>e\<in>set (excluded_subcategories sc). sublist (lower e) (lower (subcategory j)))) \<and>
   (should_include_verdict sc j = ExcludedByKeyword \<longleftrightarrow>
      \<not> (\<exists>e\<in>set (excluded_subcategories sc). sublist (lower e) (lower (subcategory j))) \<and>
      sublist ''recruitment'' (lower (company j)) \<and> sublist ''agency'' (lower (company j))) \<and>
   ((\<exists>e. should_include_verdict sc j = ExcludedByCompany e) \<longleftrightarrow>
      \<not> (\<exists>e\<in>set (excluded_subcategories sc). sublist (lower e) (lower (subcategory j))) \<and>
      \<not> (sublist ''recruitment'' (lower (company j)) \<and> sublist ''agency'' (lower (company j))) \<and>
      (\<exists>e\<in>set (excluded_companies sc). sublist (lower e) (lower (company j))))"
    unfolding should_include_job_def should_include_verdict_def Let_def
    by (auto simp: str_in_sublist split: option.splits dest: find_Some_holds find_None_none)
  have agency: "str_in ''recruitment'' (lower ''Acme Recruitment Agency Pty Ltd'') \<and>
      str_in ''agency'' (lower ''Acme Recruitment Agency Pty Ltd'')"
    by (simp add: lower_def lower_char_def)
  have recruiting: "\<not> str_in ''agency'' (lower ''Acme Recruiting'')"
    by (simp add: lower_def lower_char_def)
  have r1: "\<not> should_include_job sc (j\<lparr>company := ''Acme Recruitment Agency Pty Ltd''\<rparr>)"
    using agency
    by (simp add: should_include_job_def should_include_verdict_def Let_def split: option.split)
  have r2: "should_include_verdict (sc\<lparr>excluded_subcategories := [], excluded_companies := []\<rparr>)
       (j\<lparr>company := ''Acme Recruitment Agency Pty Ltd''\<rparr>) = ExcludedByKeyword"
    using agency by (simp add: should_include_verdict_def Let_def)
  have r3: "should_include_verdict sc (j\<lparr>company := ''Acme Recruiting''\<rparr>) \<noteq> ExcludedByKeyword"
    using recruiting by (simp add: should_include_verdict_def Let_def split: option.split)
  have r4: "should_include_verdict (sc\<lparr>excluded_subcategories := [], excluded_companies := []\<rparr>)
       (j\<lparr>company := ''Acme Recruiting''\<rparr>) = Included"
    using recruiting by (simp add: should_include_verdict_def Let_def)
  show ?thesis
    using general r1 r2 r3 r4 by blast
qed

theorem should_include_job_checks_witness:
  "\<not> should_include_job (example_scraper 5)
       ((example_job ''U1'' 0)\<lparr>company := ''Acme Recruitment Agency Pty Ltd''\<rparr>) \<and>
   should_include_verdict
       ((example_scraper 5)\<lparr>excluded_subcategories := [], excluded_companies := []\<rparr>)
       ((example_job ''U1'' 0)\<lparr>company := ''Acme Recruiting''\<rparr>) = Included"
  using should_include_job_checks [of "example_scraper 5" "example_job ''U1'' 0"]
  by simp

section \<open>Pagination\<close>

lemma try_next_selectors_never:
  "\<not> list_ex (visible_control p s) sels \<Longrightarrow> try_next_selectors p s sels \<noteq> Inr (Some s')"
  by (induction sels)
    (auto simp: visible_control_def split: sum.splits option.splits bool.splits)

lemma goto_next_page_never:
  "\<not> exposes_visible_next p s \<Longrightarrow> goto_next_page p s = None"
  unfolding exposes_visible_next_def goto_next_page_def
  using try_next_selectors_never [of p s next_selectors]
  by (cases "try_next_selectors p s next_selectors") auto

lemma try_next_selectors_always:
  "list_ex (visible_control p s) sels \<Longrightarrow> \<not> list_ex (selector_raises p s) sels \<Longrightarrow>
     \<exists>s'. try_next_selectors p s sels = Inr (Some s')"
proof (induction sels)
  case Nil
  then show ?case by simp
next
  case (Cons a sels)
  from Cons.prems(2) have nr: "\<not> selector_raises p s a"
    and nrs: "\<not> list_ex (selector_raises p s) sels"
    by simp_all
  show ?case
  proof (cases "query_selector p s a")
    case (Inl e)
    with nr show ?thesis by (simp add: selector_raises_def)
  next
    case (Inr r)
    show ?thesis
    proof (cases r)
      case None
      have "\<not> visible_control p s a"
        using Inr None by (simp add: visible_control_def)
      with Cons.prems(1) have "list_ex (visible_control p s) sels" by simp
      with Cons.IH nrs Inr None show ?thesis by simp
    next
      case (Some b)
      show ?thesis
      proof (cases "is_visible b")
        case (Inl e)
        with nr Inr Some show ?thesis by (simp add: selector_raises_def)
      next
        case vis: (Inr v)
        show ?thesis
        proof (cases v)
          case True
          obtain s1 where s1: "click b = Inr s1"
            using nr Inr Some vis True
            by (cases "click b") (simp_all add: selector_raises_def)
          obtain s2 where s2: "wait_for_load_state p s1 = Inr s2"
            using nr Inr Some vis True s1
            by (cases "wait_for_load_state p s1") (simp_all add: selector_raises_def)
          show ?thesis using Inr Some vis True s1 s2 by simp
        next
          case False
          have "\<not> visible_control p s a"
            using Inr Some vis False by (simp add: visible_control_def)
          with Cons.prems(1) have "list_ex (visible_control p s) sels" by simp
          with Cons.IH nrs Inr Some vis False show ?thesis by simp
        qed
      qed
    qed
  qed
qed

lemma goto_next_page_always:
  "exposes_visible_next p s \<Longrightarrow> \<not> navigation_raises p s \<Longrightarrow> \<exists>s'. goto_next_page p s = Some s'"
  unfolding exposes_visible_next_def navigation_raises_def goto_next_page_def
  using try_next_selectors_always [of p s next_selectors]
  by auto

lemma scrape_page_no_raise:
  "\<not> page_raises p s \<Longrightarrow> \<exists>js. scrape_page sc uj p s = Inr js"
  by (auto simp: page_raises_def scrape_page_def split: sum.splits error.splits)

lemma scrape_loop_never:
  assumes "\<forall>s. \<not> exposes_visible_next p s" and "page_num \<le> max_pages sc"
  shows "fst (scrape_loop sc uj p page_num s jobs pages) = pages @ [page_num]"
  using assms goto_next_page_never [of p s]
  by (subst scrape_loop.simps) (auto split: sum.splits option.splits)

lemma scrape_loop_always:
  "\<forall>s. exposes_visible_next p s \<and> \<not> navigation_raises p s \<and> \<not> page_raises p s \<Longrightarrow>
   fst (scrape_loop sc uj p page_num s jobs pages) = pages @ [page_num..max_pages sc]"
proof (induction sc uj p page_num s jobs pages rule: scrape_loop.induct)
  case (1 sc uj p page_num s jobs pages)
  show ?case
  proof (cases "page_num \<le> max_pages sc")
    case False
    then show ?thesis by (subst scrape_loop.simps) simp
  next
    case True
    have ok: "exposes_visible_next p s" "\<not> navigation_raises p s" "\<not> page_raises p s"
      using "1.prems" by simp_all
    obtain js where js: "scrape_page sc uj p s = Inr js"
      using scrape_page_no_raise [OF ok(3), of sc uj] by auto
    obtain s' where s': "goto_next_page p s = Some s'"
      using goto_next_page_always [OF ok(1,2)] by auto
    have "fst (scrape_loop sc uj p (page_num + 1) s' (jobs @ js) (pages @ [page_num]))
        = (pages @ [page_num]) @ [page_num + 1..max_pages sc]"
      using "1.IH" [OF True js s'] "1.prems" by simp
    moreover have "[page_num..max_pages sc] = page_num # [page_num + 1..max_pages sc]"
      using True by (rule upto_rec1)
    ultimately show ?thesis
      using True js s' by (subst scrape_loop.simps) simp
  qed
qed

lemma scrape_loop_bounded:
  "\<exists>k. fst (scrape_loop sc uj p page_num s jobs pages) = pages @ [page_num..k] \<and> k \<le> max_pages sc"
proof (induction sc uj p page_num s jobs pages rule: scrape_loop.induct)
  case (1 sc uj p page_num s jobs pages)
  show ?case
  proof (cases "page_num \<le> max_pages sc")
    case False
    then have "fst (scrape_loop sc uj p page_num s jobs pages) = pages @ [page_num..max_pages sc]"
      by (subst scrape_loop.simps) simp
    then show ?thesis by blast
  next
    case True
    show ?thesis
    proof (cases "scrape_page sc uj p s")
      case (Inl e)
      then have "fst (scrape_loop sc uj p page_num s jobs pages) = pages @ [page_num..page_num]"
        using True by (subst scrape_loop.simps) simp
      then show ?thesis using True by blast
    next
      case (Inr js)
      show ?thesis
      proof (cases "goto_next_page p s")
        case None
        then have "fst (scrape_loop sc uj p page_num s jobs pages) = pages @ [page_num..page_num]"
          using True Inr by (subst scrape_loop.simps) simp
        then show ?thesis using True by blast
      next
        case (Some s')
        obtain k where k: "fst (scrape_loop sc uj p (page_num + 1) s' (jobs @ js) (pages @ [page_num]))
            = (pages @ [page_num]) @ [page_num + 1..k]" "k \<le> max_pages sc"
          using "1.IH" [OF True Inr Some] by blast
        show ?thesis
        proof (cases "page_num \<le> k")
          case le: True
          have "[page_num..k] = page_num # [page_num + 1..k]"
            using le by (rule upto_rec1)
          then have "fst (scrape_loop sc uj p page_num s jobs pages) = pages @ [page_num..k]"
            using True Inr Some k(1) by (subst scrape_loop.simps) simp
          then show ?thesis using k(2) by blast
        next
          case gt: False
          have "[page_num + 1..k] = []"
            using gt by simp
          then have "fst (scrape_loop sc uj p page_num s jobs pages) = pages @ [page_num..page_num]"
            using True Inr Some k(1) by (subst scrape_loop.simps) simp
          then show ?thesis using True by blast
        qed
      qed
    qed
  qed
qed

lemma upto_prefix: "k \<le> n \<Longrightarrow> prefix [1..k] [1..n]"
proof (cases "1 \<le> k")
  case True
  assume "k \<le> n"
  then have "[1..n] = [1..k] @ [k + 1..n]"
    using True upto_split2 [of 1 k n] by simp
  then show ?thesis by (metis prefixI)
next
  case False
  then show ?thesis by simp
qed

text \<open>
  C4. The loop is a total function: it ends for every browser, and the pages it scrapes are
  1, 2, ... up to some page not beyond \<open>max_pages\<close>. For \<open>max_pages \<ge> 1\<close>: when no state
  of the browser exposes a visible next-page control, exactly page 1 is scraped; when every state
  exposes one and neither the navigation nor a page raises, exactly the pages 1 to
  \<open>max_pages\<close> are scraped.
\<close>

theorem crawl_pages:
  assumes "1 \<le> max_pages sc"
  shows "((\<forall>s. \<not> exposes_visible_next p s) \<longrightarrow> fst (scrape sc uj p s0) = [1]) \<and>
     ((\<forall>s. exposes_visible_next p s \<and> \<not> navigation_raises p s \<and> \<not> page_raises p s) \<longrightarrow>
        fst (scrape sc uj p s0) = [1..max_pages sc] \<and>
        length (fst (scrape sc uj p s0)) = nat (max_pages sc)) \<and>
     prefix (fst (scrape sc uj p s0)) [1..max_pages sc]"
proof (intro conjI impI)
  assume "\<forall>s. \<not> exposes_visible_next p s"
  then show "fst (scrape sc uj p s0) = [1]"
    using scrape_loop_never [of p 1 sc uj s0 "[]" "[]"] assms by (simp add: scrape_def)
next
  assume a: "\<forall>s. exposes_visible_next p s \<and> \<not> navigation_raises p s \<and> \<not> page_raises p s"
  then show "fst (scrape sc uj p s0) = [1..max_pages sc]"
    using scrape_loop_always [of p sc uj 1 s0 "[]" "[]"] by (simp add: scrape_def)
  then show "length (fst (scrape sc uj p s0)) = nat (max_pages sc)"
    by simp
next
  obtain k where k: "fst (scrape sc uj p s0) = [1..k]" "k \<le> max_pages sc"
    using scrape_loop_bounded [of sc uj p 1 s0 "[]" "[]"] by (auto simp: scrape_def)
  then show "prefix (fst (scrape sc uj p s0)) [1..max_pages sc]"
    using upto_prefix by simp
qed

theorem crawl_pages_witness:
  "fst (scrape (example_scraper 3) (\<lambda>b h. b @ h) (example_page (\<lambda>s. Inr ()) False) 0) = [1] \<and>
   fst (scrape (example_scraper 3) (\<lambda>b h. b @ h) (example_page (\<lambda>s. Inr ()) True) 0) = [1, 2, 3]"
proof -
  have m: "1 \<le> max_pages (example_scraper 3)" by simp
  have never: "\<forall>s. \<not> exposes_visible_next (example_page (\<lambda>s. Inr ()) False) s"
    by (simp add: exposes_visible_next_def visible_control_def next_selectors_def)
  have always: "\<forall>s. exposes_visible_next (example_page (\<lambda>s. Inr ()) True) s \<and>
      \<not> navigation_raises (example_page (\<lambda>s. Inr ()) True) s \<and>
      \<not> page_raises (example_page (\<lambda>s. Inr ()) True) s"
    by (simp add: exposes_visible_next_def visible_control_def navigation_raises_def
        selector_raises_def page_raises_def next_selectors_def)
  have "[1..3] = [1, 2, 3::int]" by (simp add: upto_rec1)
  then show ?thesis
    using crawl_pages [OF m, of "example_page (\<lambda>s. Inr ()) False" "\<lambda>b h. b @ h" 0] never
      crawl_pages [OF m, of "example_page (\<lambda>s. Inr ()) True" "\<lambda>b h. b @ h" 0] always
    by simp
qed

text \<open>
  C5, as the code has it. When the wait for the listings times out on a page, that page yields
  no records and no exception. The run then looks for the next-page control as after any other
  page: it stops there when \<open>_goto_next_page\<close> returns false, and goes on to the next page
  when it returns true.
\<close>

theorem timeout_page_is_empty_and_run_goes_on:
  assumes "wait_for_selector p s = Inl PlaywrightTimeout"
  shows "scrape_page sc uj p s = Inr [] \<and>
    (page_num \<le> max_pages sc \<longrightarrow>
       scrape_loop sc uj p page_num s jobs pages =
         (case goto_next_page p s of
            None \<Rightarrow> (pages @ [page_num], Inr jobs)
          | Some s' \<Rightarrow> scrape_loop sc uj p (page_num + 1) s' jobs (pages @ [page_num])))"
proof -
  have e: "scrape_page sc uj p s = Inr []"
    using assms by (simp add: scrape_page_def)
  then show ?thesis
    by (subst scrape_loop.simps) (simp split: option.split)
qed

theorem timeout_witness:
  "scrape_page (example_scraper 2) (\<lambda>b h. b @ h) (example_page (\<lambda>s. Inl PlaywrightTimeout) False) 0 = Inr [] \<and>
   scrape_loop (example_scraper 2) (\<lambda>b h. b @ h) (example_page (\<lambda>s. Inl PlaywrightTimeout) False) 1 0 [] []
     = ([1], Inr [])"
proof -
  have w: "wait_for_selector (example_page (\<lambda>s. Inl PlaywrightTimeout) False) 0 = Inl PlaywrightTimeout"
    by simp
  have g: "goto_next_page (example_page (\<lambda>s. Inl PlaywrightTimeout) False) 0 = None"
    by (simp add: goto_next_page_def next_selectors_def)
  show ?thesis
    using timeout_page_is_empty_and_run_goes_on [OF w, of "example_scraper 2" "\<lambda>b h. b @ h" 1 "[]" "[]"] g
    by simp
qed

text \<open>
  The claim as stated fails: with a browser whose wait always times out and whose next-page
  control is always visible, and \<open>max_pages = 2\<close>, the run scrapes page 2 after the timeout on
  page 1.
\<close>

theorem timeout_does_not_stop_run_counterexample:
  "wait_for_selector (example_page (\<lambda>s. Inl PlaywrightTimeout) True) 0 = Inl PlaywrightTimeout \<and>
   scrape (example_scraper 2) (\<lambda>b h. b @ h) (example_page (\<lambda>s. Inl PlaywrightTimeout) True) 0
     = ([1, 2], Inr [])"
  by (simp add: scrape_def scrape_loop.simps scrape_page_def goto_next_page_def
      next_selectors_def)

section \<open>Extraction\<close>

lemma candidate_records_append:
  "candidate_records sc uj (xs @ ys) = candidate_records sc uj xs @ candidate_records sc uj ys"
  by (simp add: candidate_records_def map_filter_def)

lemma candidate_records_Cons:
  "candidate_records sc uj ((now, c) # cs) =
     (case extract_job_data sc uj now c of
        None \<Rightarrow> candidate_records sc uj cs
      | Some j \<Rightarrow> j # candidate_records sc uj cs)"
  by (simp add: candidate_records_def map_filter_def split: option.split)

lemma scrape_cards_candidates:
  "scrape_cards sc uj cards = filter (should_include_job sc) (candidate_records sc uj cards)"
  by (induction sc uj cards rule: scrape_cards.induct)
    (simp_all add: candidate_records_Cons candidate_records_def map_filter_def split: option.split)

lemma length_candidate_records:
  "length (candidate_records sc uj cards) =
     length (filter (\<lambda>tc. extract_job_data sc uj (fst tc) (snd tc) \<noteq> None) cards)"
  by (induction cards) (auto simp: candidate_records_Cons candidate_records_def map_filter_def split: option.split)

lemma no_title_link: "first_match c title_selectors = Inr None \<Longrightarrow> extract_job_data sc uj now c = None"
  by (simp add: extract_job_data_def extract_body_def bind_err_def)

lemma no_href:
  assumes "first_match c title_selectors = Inr (Some te)"
    and "get_attribute te ''href'' = Inr None \<or> get_attribute te ''href'' = Inr (Some [])"
  shows "extract_job_data sc uj now c = None"
  using assms
  by (cases "inner_text te") (auto simp: extract_job_data_def extract_body_def bind_err_def)


lemma three_cards:
  assumes "length cards = 3" and "i < 3"
    and "extract_job_data sc uj (fst (cards ! i)) (snd (cards ! i)) = None"
    and "\<forall>k<3. k \<noteq> i \<longrightarrow> extract_job_data sc uj (fst (cards ! k)) (snd (cards ! k)) \<noteq> None"
  shows "length (candidate_records sc uj cards) = 2"
proof -
  obtain a b d where cards: "cards = [a, b, d]"
    using assms(1) by (auto simp: numeral_3_eq_3 length_Suc_conv)
  have k0: "0 \<noteq> i \<Longrightarrow> extract_job_data sc uj (fst a) (snd a) \<noteq> None"
    using assms(4) cards by (metis nth_Cons_0 zero_less_numeral)
  have k1: "1 \<noteq> i \<Longrightarrow> extract_job_data sc uj (fst b) (snd b) \<noteq> None"
    using assms(4) [rule_format, of 1] cards by simp
  have k2: "2 \<noteq> i \<Longrightarrow> extract_job_data sc uj (fst d) (snd d) \<noteq> None"
    using assms(4) [rule_format, of 2] cards by simp
  consider "i = 0" | "i = 1" | "i = 2"
    using assms(2) by linarith
  then show ?thesis
  proof cases
    case 1
    then show ?thesis
      using assms(3) k1 k2 cards by (simp add: length_candidate_records)
  next
    case 2
    then show ?thesis
      using assms(3) k0 k2 cards by (simp add: length_candidate_records)
  next
    case 3
    then show ?thesis
      using assms(3) k0 k1 cards by (simp add: length_candidate_records)
  qed
qed

text \<open>
  C6. A card with no title link, or whose title link has no or an empty \<open>href\<close>, gives no
  record, and so does a card on which extraction raises; the cards before and after such a
  card are extracted as if it were not there. The jobs of a page are its candidate records that
  pass the inclusion filter. Of three cards of which one has no title link and the two others
  are extracted, exactly two candidate records result.
\<close>

theorem elements_without_title_or_url_are_skipped:
  "(first_match c title_selectors = Inr None \<longrightarrow> extract_job_data sc uj now c = None) \<and>
   (first_match c title_selectors = Inr (Some te) \<and>
      (get_attribute te ''href'' = Inr None \<or> get_attribute te ''href'' = Inr (Some [])) \<longrightarrow>
      extract_job_data sc uj now c = None) \<and>
   (extract_body sc uj now c = Inl e \<longrightarrow> extract_job_data sc uj now c = None) \<and>
   (extract_job_data sc uj now c = None \<longrightarrow>
      candidate_records sc uj (cs1 @ (now, c) # cs2)
        = candidate_records sc uj cs1 @ candidate_records sc uj cs2 \<and>
      scrape_cards sc uj (cs1 @ (now, c) # cs2)
        = scrape_cards sc uj cs1 @ scrape_cards sc uj cs2) \<and>
   scrape_cards sc uj cards = filter (should_include_job sc) (candidate_records sc uj cards) \<and>
   (length cards = 3 \<and> i < 3 \<and> first_match (snd (cards ! i)) title_selectors = Inr None \<and>
      (\<forall>k<3. k \<noteq> i \<longrightarrow>
         extract_job_data sc uj (fst (cards ! k)) (snd (cards ! k)) \<noteq> None) \<longrightarrow>
      length (candidate_records sc uj cards) = 2)"
proof (intro conjI impI)
  assume "first_match c title_selectors = Inr None"
  then show "extract_job_data sc uj now c = None" by (rule no_title_link)
next
  assume "first_match c title_selectors = Inr (Some te) \<and>
      (get_attribute te ''href'' = Inr None \<or> get_attribute te ''href'' = Inr (Some []))"
  then show "extract_job_data sc uj now c = None" using no_href by blast
next
  assume "extract_body sc uj now c = Inl e"
  then show "extract_job_data sc uj now c = None" by (simp add: extract_job_data_def)
next
  assume n: "extract_job_data sc uj now c = None"
  then show "candidate_records sc uj (cs1 @ (now, c) # cs2)
        = candidate_records sc uj cs1 @ candidate_records sc uj cs2"
    by (simp add: candidate_records_append candidate_records_Cons)
  then show "scrape_cards sc uj (cs1 @ (now, c) # cs2)
        = scrape_cards sc uj cs1 @ scrape_cards sc uj cs2"
    by (simp add: scrape_cards_candidates)
next
  show "scrape_cards sc uj cards = filter (should_include_job sc) (candidate_records sc uj cards)"
    by (rule scrape_cards_candidates)
next
  assume a: "length cards = 3 \<and> i < 3 \<and> first_match (snd (cards ! i)) title_selectors = Inr None \<and>
      (\<forall>k<3. k \<noteq> i \<longrightarrow>
         extract_job_data sc uj (fst (cards ! k)) (snd (cards ! k)) \<noteq> None)"
  then have "extract_job_data sc uj (fst (cards ! i)) (snd (cards ! i)) = None"
    using no_title_link by blast
  then show "length (candidate_records sc uj cards) = 2"
    using a three_cards [of cards i sc uj] by blast
qed

lemma example_card_extracted:
  "extract_job_data (example_scraper 5) (\<lambda>b h. b @ h) at (example_card t (x # xs)) =
     Some \<lparr>title = strip t, company = ''Acme Pty Ltd'', location = ''Unknown'',
           classification = ''Human Resources & Recruitment'', subcategory = ''Unknown'',
           job_url = ''https://www.seek.com.au'' @ x # xs, posted_date = Some ''Recently'',
           salary = None, job_type = None, description = None, scraped_at = at\<rparr>"
  by (simp add: extract_job_data_def extract_body_def bind_err_def text_or_def
      title_selectors_def company_selectors_def location_selectors_def salary_selectors_def
      subcategory_selectors_def posted_selectors_def description_selectors_def
      strip_def is_space_def)

lemma untitled_card_no_title: "first_match untitled_card title_selectors = Inr None"
  by (simp add: title_selectors_def)

theorem elements_without_title_or_url_are_skipped_witness:
  "extract_job_data (example_scraper 5) (\<lambda>b h. b @ h) 2 untitled_card = None \<and>
   length (candidate_records (example_scraper 5) (\<lambda>b h. b @ h)
             [(1, example_card ''HR Advisor'' ''/job/1''), (2, untitled_card),
              (3, example_card ''Payroll Officer'' ''/job/3'')]) = 2"
proof -
  let ?cards = "[(1, example_card ''HR Advisor'' ''/job/1''), (2, untitled_card),
              (3, example_card ''Payroll Officer'' ''/job/3'')]"
  have others: "\<forall>k<3. k \<noteq> 1 \<longrightarrow>
      extract_job_data (example_scraper 5) (\<lambda>b h. b @ h) (fst (?cards ! k)) (snd (?cards ! k)) \<noteq> None"
  proof (intro allI impI)
    fix k :: nat
    assume "k < 3" and "k \<noteq> 1"
    then consider "k = 0" | "k = 2" by linarith
    then show "extract_job_data (example_scraper 5) (\<lambda>b h. b @ h) (fst (?cards ! k)) (snd (?cards ! k)) \<noteq> None"
      by cases (simp_all add: example_card_extracted)
  qed
  have premise: "length ?cards = 3 \<and> (1::nat) < 3 \<and>
      first_match (snd (?cards ! 1)) title_selectors = Inr None \<and>
      (\<forall>k<3. k \<noteq> 1 \<longrightarrow>
         extract_job_data (example_scraper 5) (\<lambda>b h. b @ h) (fst (?cards ! k)) (snd (?cards ! k)) \<noteq> None)"
  proof (intro conjI)
    show "length ?cards = 3" by simp
    show "(1::nat) < 3" by simp
    show "first_match (snd (?cards ! 1)) title_selectors = Inr None"
      by (simp add: title_selectors_def)
    show "\<forall>k<3. k \<noteq> 1 \<longrightarrow>
         extract_job_data (example_scraper 5) (\<lambda>b h. b @ h) (fst (?cards ! k)) (snd (?cards ! k)) \<noteq> None"
      by (rule others)
  qed
  note skipped = elements_without_title_or_url_are_skipped
    [where c = untitled_card and sc = "example_scraper 5" and uj = "\<lambda>b h. b @ h" and now = 2
       and cards = ?cards and i = 1]
  show ?thesis
  proof (intro conjI)
    show "extract_job_data (example_scraper 5) (\<lambda>b h. b @ h) 2 untitled_card = None"
      by (rule skipped [THEN conjunct1, THEN mp, OF untitled_card_no_title])
    show "length (candidate_records (example_scraper 5) (\<lambda>b h. b @ h) ?cards) = 2"
      by (rule skipped [THEN conjunct2, THEN conjunct2, THEN conjunct2, THEN conjunct2,
            THEN conjunct2, THEN mp, OF premise])
  qed
qed






end
